theory Spec2Isabelle
  imports Complex_Main
begin

section \<open>Python numbers\<close>

text \<open>
  A sample value is whatever the collaborators hand over. \<open>Number\<close> covers the instances of
  \<open>int\<close> and \<open>float\<close> (\<open>bool\<close> included, as \<open>0\<close> and \<open>1\<close>); \<open>Other\<close> is any object that
  is neither (\<open>None\<close>, a string, ...). A finite number is a real in exact arithmetic:
  rounding and overflow of floats are not modelled. The three special floats are kept,
  since the validity check of the source lets some of them through.
\<close>

datatype num = Fin real | PInf | NInf | NaN

datatype pyval = Number num | Other

datatype error = ValueError string | ZeroDivisionError | IndexError

fun nadd :: "num \<Rightarrow> num \<Rightarrow> num" where
  "nadd (Fin a) (Fin b) = Fin (a + b)"
| "nadd NaN _ = NaN"
| "nadd _ NaN = NaN"
| "nadd PInf NInf = NaN"
| "nadd NInf PInf = NaN"
| "nadd PInf _ = PInf"
| "nadd _ PInf = PInf"
| "nadd NInf _ = NInf"
| "nadd _ NInf = NInf"

fun nneg :: "num \<Rightarrow> num" where
  "nneg (Fin a) = Fin (- a)"
| "nneg PInf = NInf"
| "nneg NInf = PInf"
| "nneg NaN = NaN"

definition nsub :: "num \<Rightarrow> num \<Rightarrow> num" where
  "nsub a b = nadd a (nneg b)"

fun inf_times :: "num \<Rightarrow> real \<Rightarrow> num" where
  "inf_times i b = (if b = 0 then NaN else if 0 < b then i else nneg i)"

fun nmul :: "num \<Rightarrow> num \<Rightarrow> num" where
  "nmul (Fin a) (Fin b) = Fin (a * b)"
| "nmul NaN _ = NaN"
| "nmul _ NaN = NaN"
| "nmul (Fin a) i = inf_times i a"
| "nmul i (Fin b) = inf_times i b"
| "nmul PInf i = i"
| "nmul NInf i = nneg i"

fun ndiv :: "num \<Rightarrow> num \<Rightarrow> error + num" where
  "ndiv a (Fin b) =
     (if b = 0 then Inl ZeroDivisionError
      else Inr (case a of Fin x \<Rightarrow> Fin (x / b) | NaN \<Rightarrow> NaN | i \<Rightarrow> inf_times i b))"
| "ndiv NaN _ = Inr NaN"
| "ndiv _ NaN = Inr NaN"
| "ndiv (Fin a) _ = Inr (Fin 0)"
| "ndiv _ _ = Inr NaN"

fun nsqrt :: "num \<Rightarrow> error + num" where
  "nsqrt (Fin a) = (if a < 0 then Inl (ValueError ''math domain error'') else Inr (Fin (sqrt a)))"
| "nsqrt PInf = Inr PInf"
| "nsqrt NInf = Inl (ValueError ''math domain error'')"
| "nsqrt NaN = Inr NaN"

fun nabs :: "num \<Rightarrow> num" where
  "nabs (Fin a) = Fin \<bar>a\<bar>"
| "nabs PInf = PInf"
| "nabs NInf = PInf"
| "nabs NaN = NaN"

fun nless :: "num \<Rightarrow> num \<Rightarrow> bool" where
  "nless NaN _ = False"
| "nless _ NaN = False"
| "nless (Fin a) (Fin b) = (a < b)"
| "nless NInf NInf = False"
| "nless NInf _ = True"
| "nless _ NInf = False"
| "nless PInf _ = False"
| "nless _ PInf = True"

section \<open>The rolling window of \<open>process_z_score_outliers\<close>\<close>

record state =
  rolling_sum :: num
  rolling_squared_sum :: num
  window_values :: "num list"
  window_squared_values :: "num list"

definition init_state :: state where
  "init_state = \<lparr>rolling_sum = Fin 0, rolling_squared_sum = Fin 0,
                 window_values = [], window_squared_values = []\<rparr>"

text \<open>
  The sanity check of both loops (\<open>z_score.py\<close>, lines 91 and 104):
  \<open>not isinstance(value, (int, float)) or value < 0\<close>.
\<close>

fun invalid :: "pyval \<Rightarrow> bool" where
  "invalid Other = True"
| "invalid (Number v) = nless v (Fin 0)"

text \<open>
  Admission of a value (lines 95 to 99 and 111 to 115): both running totals grow, both queues
  get the value appended.
\<close>

definition push :: "num \<Rightarrow> state \<Rightarrow> state" where
  "push v s = s\<lparr>rolling_sum := nadd (rolling_sum s) v,
               window_values := window_values s @ [v],
               rolling_squared_sum := nadd (rolling_squared_sum s) (nmul v v),
               window_squared_values := window_squared_values s @ [nmul v v]\<rparr>"

text \<open>The loop over the historical data (lines 89 to 99); the timestamps are ignored.\<close>

fun bootstrap_loop :: "('t \<times> pyval) list \<Rightarrow> state \<Rightarrow> state" where
  "bootstrap_loop [] s = s"
| "bootstrap_loop ((_, Other) # rest) s = bootstrap_loop rest s"
| "bootstrap_loop ((_, Number v) # rest) s =
     (if invalid (Number v) then bootstrap_loop rest s else bootstrap_loop rest (push v s))"

text \<open>
  The three statistics lines of a cycle (lines 119 to 121). A division by zero raises
  \<open>ZeroDivisionError\<close>, \<open>math.sqrt\<close> of a negative number raises \<open>ValueError\<close>.
\<close>

definition rolling_mean :: "int \<Rightarrow> state \<Rightarrow> error + num" where
  "rolling_mean window s = ndiv (rolling_sum s) (Fin (of_int window))"

definition rolling_variance :: "int \<Rightarrow> num \<Rightarrow> state \<Rightarrow> error + num" where
  "rolling_variance window m s =
     ndiv (nadd (nsub (nmul (Fin (of_int window)) (nmul m m))
                      (nmul (nmul (Fin 2) m) (rolling_sum s)))
                (rolling_squared_sum s))
          (Fin (of_int (window - 1)))"

definition rolling_std :: "int \<Rightarrow> num \<Rightarrow> state \<Rightarrow> error + num" where
  "rolling_std window m s =
     (case rolling_variance window m s of Inl e \<Rightarrow> Inl e | Inr var \<Rightarrow> nsqrt var)"

definition is_outlier :: "real \<Rightarrow> num \<Rightarrow> num \<Rightarrow> num \<Rightarrow> error + bool" where
  "is_outlier threshold v m sd =
     (case ndiv (nsub v m) sd of Inl e \<Rightarrow> Inl e
      | Inr z \<Rightarrow> Inr (nless (Fin threshold) (nabs z)))"

definition decide :: "int \<Rightarrow> real \<Rightarrow> state \<Rightarrow> num \<Rightarrow> error + bool" where
  "decide window threshold s v =
     (case rolling_mean window s of Inl e \<Rightarrow> Inl e
      | Inr m \<Rightarrow> (case rolling_std window m s of Inl e \<Rightarrow> Inl e
                 | Inr sd \<Rightarrow> is_outlier threshold v m sd))"

text \<open>Eviction (lines 126 to 130): \<open>popleft\<close> on an empty deque raises \<open>IndexError\<close>.\<close>

definition evict :: "state \<Rightarrow> error + state" where
  "evict s =
     (case window_values s of [] \<Rightarrow> Inl IndexError
      | old_value # vs \<Rightarrow>
          (case window_squared_values s of [] \<Rightarrow> Inl IndexError
           | old_squared_value # sqs \<Rightarrow>
               Inr (s\<lparr>window_values := vs,
                      rolling_sum := nsub (rolling_sum s) old_value,
                      window_squared_values := sqs,
                      rolling_squared_sum := nsub (rolling_squared_sum s) old_squared_value\<rparr>)))"

text \<open>
  The loop over the live stream (lines 102 to 130), run on a finite prefix of it. The result is the list of
  the tuples yielded so far, and either the error that ended the generator or the state in
  which it waits for the next item.
\<close>

type_synonym decision = "int \<times> num \<times> bool"

fun stream_loop :: "int \<Rightarrow> real \<Rightarrow> (int \<times> pyval) list \<Rightarrow> state \<Rightarrow> decision list \<times> (error + state)" where
  "stream_loop window threshold [] s = ([], Inr s)"
| "stream_loop window threshold ((timestamp, Other) # rest) s = stream_loop window threshold rest s"
| "stream_loop window threshold ((timestamp, Number v) # rest) s =
     (if invalid (Number v) then stream_loop window threshold rest s
      else (case decide window threshold (push v s) v of
              Inl e \<Rightarrow> ([], Inl e)
            | Inr b \<Rightarrow>
                (case evict (push v s) of
                   Inl e \<Rightarrow> ([(timestamp, v, b)], Inl e)
                 | Inr s' \<Rightarrow>
                     (case stream_loop window threshold rest s' of
                        (out, r) \<Rightarrow> ((timestamp, v, b) # out, r)))))"

text \<open>
  The whole generator (lines 69 to 130). \<open>now\<close> is the reading of \<open>time.time()\<close>; the calls
  made to the historical lookup are recorded with their arguments. The lookup is a parameter
  and may raise; \<open>live\<close> is the prefix of the stream consumed so far.
\<close>

record outcome =
  lookup_calls :: "(real \<times> real) list"
  yielded :: "decision list"
  final :: "error + state"

definition process_z_score_outliers ::
  "(real \<Rightarrow> real \<Rightarrow> error + ('t \<times> pyval) list) \<Rightarrow> (int \<times> pyval) list \<Rightarrow>
   int \<Rightarrow> real \<Rightarrow> int \<Rightarrow> real \<Rightarrow> outcome" where
  "process_z_score_outliers get_historical_data live window threshold timestamp_increment now =
     (if window \<le> 1
      then \<lparr>lookup_calls = [], yielded = [],
            final = Inl (ValueError ''Rolling window must be greater than 1.'')\<rparr>
      else
        (let historical_data_end_date = now;
             historical_data_start_date =
               historical_data_end_date - of_int ((window - 1) * timestamp_increment)
         in case get_historical_data historical_data_start_date historical_data_end_date of
              Inl e \<Rightarrow> \<lparr>lookup_calls = [(historical_data_start_date, historical_data_end_date)],
                        yielded = [], final = Inl e\<rparr>
            | Inr historical_energy_data \<Rightarrow>
                (case stream_loop window threshold live
                        (bootstrap_loop historical_energy_data init_state) of
                   (out, r) \<Rightarrow>
                     \<lparr>lookup_calls = [(historical_data_start_date, historical_data_end_date)],
                      yielded = out, final = r\<rparr>)))"

text \<open>
  The historical lookup of the repository (\<open>data.py\<close>, lines 98 to 108).
  \<open>_get_energy_value\<close> (sines and a seeded Gaussian)
  is the parameter \<open>energy_value\<close>; it always returns a float. \<open>range(steps)\<close> is empty for
  \<open>steps \<le> 0\<close>, as \<open>[0..steps - 1]\<close> is.
\<close>

definition get_historical_energy_data ::
  "(int \<Rightarrow> num) \<Rightarrow> real \<Rightarrow> real \<Rightarrow> int \<Rightarrow> error + (int \<times> pyval) list" where
  "get_historical_energy_data energy_value start end' timestamp_increment =
     (if timestamp_increment \<le> 0
      then Inl (ValueError ''Timestamp increment must be greater than 0.'')
      else
        (let timestamp = \<lceil>start / of_int timestamp_increment\<rceil> * timestamp_increment;
             steps = \<lfloor>(end' - of_int timestamp) / of_int timestamp_increment\<rfloor> + 1
         in Inr (map (\<lambda>i. (timestamp + timestamp_increment * i,
                            Number (energy_value (timestamp + timestamp_increment * i))))
                     [0..steps - 1])))"

text \<open>
  \<open>main.py\<close> passes the lookup by name, and \<open>process_z_score_outliers\<close> calls it with two
  arguments: its increment is its own default, one day.
\<close>

definition default_lookup :: "(int \<Rightarrow> num) \<Rightarrow> real \<Rightarrow> real \<Rightarrow> error + (int \<times> pyval) list" where
  "default_lookup energy_value start end' = get_historical_energy_data energy_value start end' 86400"

section \<open>Points of the run\<close>

text \<open>
  The states of the two loops in the order in which they occur: the state at the head of
  every iteration, the state after each push and the state after each eviction.
\<close>

fun bootstrap_points :: "('t \<times> pyval) list \<Rightarrow> state \<Rightarrow> state list" where
  "bootstrap_points [] s = [s]"
| "bootstrap_points ((_, Other) # rest) s = s # bootstrap_points rest s"
| "bootstrap_points ((_, Number v) # rest) s =
     s # (if invalid (Number v) then bootstrap_points rest s
          else bootstrap_points rest (push v s))"

fun stream_points :: "int \<Rightarrow> real \<Rightarrow> (int \<times> pyval) list \<Rightarrow> state \<Rightarrow> state list" where
  "stream_points window threshold [] s = [s]"
| "stream_points window threshold ((timestamp, Other) # rest) s =
     s # stream_points window threshold rest s"
| "stream_points window threshold ((timestamp, Number v) # rest) s =
     s # (if invalid (Number v) then stream_points window threshold rest s
          else push v s #
            (case decide window threshold (push v s) v of
               Inl e \<Rightarrow> []
             | Inr b \<Rightarrow>
                 (case evict (push v s) of
                    Inl e \<Rightarrow> []
                  | Inr s' \<Rightarrow> stream_points window threshold rest s')))"

section \<open>Properties in exact arithmetic\<close>

text \<open>The reals held by a queue, when all of its entries are finite.\<close>

fun the_reals :: "num list \<Rightarrow> real list option" where
  "the_reals [] = Some []"
| "the_reals (Fin x # vs) = map_option ((#) x) (the_reals vs)"
| "the_reals (_ # vs) = None"

definition accumulators_exact :: "state \<Rightarrow> bool" where
  "accumulators_exact s =
     (case the_reals (window_values s) of
        None \<Rightarrow> False
      | Some xs \<Rightarrow> rolling_sum s = Fin (sum_list xs) \<and>
                  rolling_squared_sum s = Fin (\<Sum>x\<leftarrow>xs. x\<^sup>2))"

text \<open>A sample of exact arithmetic: no infinity and no NaN.\<close>

fun finite_value :: "pyval \<Rightarrow> bool" where
  "finite_value (Number (Fin x)) = True"
| "finite_value (Number _) = False"
| "finite_value Other = True"

text \<open>The state whose two queues and two totals are those of the reals \<open>xs\<close>.\<close>

definition fin_state :: "real list \<Rightarrow> state \<Rightarrow> bool" where
  "fin_state xs s =
     (s = \<lparr>rolling_sum = Fin (sum_list xs), rolling_squared_sum = Fin (\<Sum>x\<leftarrow>xs. x * x),
           window_values = map Fin xs, window_squared_values = map (\<lambda>x. Fin (x * x)) xs\<rparr>)"

text \<open>The finite values of a sequence of samples that pass the sanity check, in order.\<close>

fun accepted :: "('t \<times> pyval) list \<Rightarrow> real list" where
  "accepted [] = []"
| "accepted ((_, Number (Fin x)) # rest) = (if x < 0 then accepted rest else x # accepted rest)"
| "accepted (_ # rest) = accepted rest"


lemmas run_defs =
  init_state_def push_def decide_def rolling_mean_def rolling_std_def rolling_variance_def
  is_outlier_def evict_def nsub_def process_z_score_outliers_def

section \<open>Auxiliary facts\<close>

subsection \<open>No operation of a cycle raises \<open>IndexError\<close> after a push\<close>

lemma ndiv_not_IndexError: "ndiv a b \<noteq> Inl IndexError"
  by (cases a; cases b) auto

lemma nsqrt_not_IndexError: "nsqrt a \<noteq> Inl IndexError"
  by (cases a) auto

lemma decide_not_IndexError: "decide window threshold s v \<noteq> Inl IndexError"
  by (auto simp: decide_def rolling_mean_def rolling_std_def rolling_variance_def is_outlier_def
      ndiv_not_IndexError nsqrt_not_IndexError split: sum.splits)

lemma evict_push_lengths:
  "\<exists>s'. evict (push v s) = Inr s' \<and> length (window_values s') = length (window_values s)"
  by (cases "window_values s"; cases "window_squared_values s") (auto simp: evict_def push_def)

subsection \<open>Lengths of the window\<close>

lemma bootstrap_length:
  "length (window_values (bootstrap_loop hist s)) =
   length (window_values s) + length (filter (\<lambda>x. \<not> invalid (snd x)) hist)"
  by (induction hist s rule: bootstrap_loop.induct) (auto simp: push_def)

lemma stream_length:
  "stream_loop window threshold live s = (out, Inr s') \<Longrightarrow>
   length (window_values s') = length (window_values s)"
proof (induction window threshold live s arbitrary: out rule: stream_loop.induct)
  case (3 window threshold timestamp v rest s)
  obtain s1 where s1: "evict (push v s) = Inr s1" "length (window_values s1) = length (window_values s)"
    using evict_push_lengths by blast
  show ?case
  proof (cases "invalid (Number v)")
    case True
    with 3 show ?thesis by simp
  next
    case False
    with 3(3) s1(1) obtain b out1 where
      b: "decide window threshold (push v s) v = Inr b" and
      r: "stream_loop window threshold rest s1 = (out1, Inr s')"
      by (auto split: sum.splits prod.splits)
    from 3(2)[OF False b s1(1) r] s1(2) show ?thesis by simp
  qed
qed simp_all

subsection \<open>States over finite values\<close>

lemma the_reals_map_Fin: "the_reals (map Fin xs) = Some xs"
  by (induction xs) simp_all

lemma fin_state_exact: "fin_state xs s \<Longrightarrow> accumulators_exact s"
  by (simp add: fin_state_def accumulators_exact_def the_reals_map_Fin power2_eq_square)

lemma fin_state_init: "fin_state [] init_state"
  by (simp add: fin_state_def init_state_def)

lemma fin_state_push: "fin_state xs s \<Longrightarrow> fin_state (xs @ [v]) (push (Fin v) s)"
  by (simp add: fin_state_def push_def)

lemma fin_state_evict:
  "fin_state (x # xs) s \<Longrightarrow> \<exists>s'. evict s = Inr s' \<and> fin_state xs s'"
  by (simp add: fin_state_def evict_def nsub_def)

lemma bootstrap_fin:
  "fin_state xs s \<Longrightarrow> \<forall>x\<in>set hist. finite_value (snd x) \<Longrightarrow>
   fin_state (xs @ accepted hist) (bootstrap_loop hist s)"
proof (induction hist s arbitrary: xs rule: bootstrap_loop.induct)
  case (3 uu v rest s)
  then obtain x where v: "v = Fin x" by (cases v) auto
  show ?case
  proof (cases "x < 0")
    case True
    with 3 v show ?thesis by simp
  next
    case False
    with 3(2)[of "xs @ [x]"] 3(3,4) v fin_state_push[of xs s x] show ?thesis by simp
  qed
qed simp_all




subsection \<open>The points are those of the loops\<close>

lemma bootstrap_points_nonempty: "bootstrap_points hist s \<noteq> []"
  by (induction hist s rule: bootstrap_points.induct) auto

lemma bootstrap_points_last: "last (bootstrap_points hist s) = bootstrap_loop hist s"
  by (induction hist s rule: bootstrap_points.induct) (auto simp: bootstrap_points_nonempty)

lemma stream_points_nonempty: "stream_points window threshold live s \<noteq> []"
  by (induction window threshold live s rule: stream_points.induct) auto

lemma stream_points_last:
  "stream_loop window threshold live s = (out, Inr s') \<Longrightarrow>
   last (stream_points window threshold live s) = s'"
proof (induction window threshold live s arbitrary: out rule: stream_loop.induct)
  case (3 window threshold timestamp v rest s)
  show ?case
  proof (cases "invalid (Number v)")
    case True
    with 3 show ?thesis by (simp add: stream_points_nonempty)
  next
    case False
    with 3(3) obtain b s1 out1 where
      b: "decide window threshold (push v s) v = Inr b" and
      s1: "evict (push v s) = Inr s1" and
      r: "stream_loop window threshold rest s1 = (out1, Inr s')"
      by (auto split: sum.splits prod.splits)
    from 3(2)[OF False b s1 r] False b s1 show ?thesis
      by (simp add: stream_points_nonempty)
  qed
qed (simp_all add: stream_points_nonempty)

lemma bootstrap_points_fin:
  "fin_state xs s \<Longrightarrow> \<forall>x\<in>set hist. finite_value (snd x) \<Longrightarrow>
   p \<in> set (bootstrap_points hist s) \<Longrightarrow> \<exists>ys. fin_state ys p"
proof (induction hist s arbitrary: xs rule: bootstrap_points.induct)
  case (3 uu v rest s)
  then obtain x where v: "v = Fin x" by (cases v) auto
  show ?case
  proof (cases "x < 0")
    case True
    with 3 v show ?thesis by auto
  next
    case False
    with 3(2)[of "xs @ [x]"] 3(3,4,5) v fin_state_push[of xs s x] show ?thesis by auto
  qed
qed auto

lemma stream_points_fin:
  "fin_state xs s \<Longrightarrow> \<forall>x\<in>set live. finite_value (snd x) \<Longrightarrow>
   p \<in> set (stream_points window threshold live s) \<Longrightarrow> \<exists>ys. fin_state ys p"
proof (induction window threshold live s arbitrary: xs rule: stream_points.induct)
  case (3 window threshold timestamp v rest s)
  then obtain x where v: "v = Fin x" by (cases v) auto
  show ?case
  proof (cases "x < 0")
    case True
    with 3 v show ?thesis by auto
  next
    case False
    from 3(3) have px: "fin_state (xs @ [x]) (push (Fin x) s)" by (rule fin_state_push)
    then obtain s1 where s1: "evict (push (Fin x) s) = Inr s1" "fin_state (tl (xs @ [x])) s1"
      using fin_state_evict[of "hd (xs @ [x])" "tl (xs @ [x])" "push (Fin x) s"] by auto
    from 3(4) have fr: "\<forall>x\<in>set rest. finite_value (snd x)" by simp
    consider "p = s" | "p = push (Fin x) s"
      | b where "decide window threshold (push (Fin x) s) (Fin x) = Inr b"
          "p \<in> set (stream_points window threshold rest s1)"
      using 3(5) False v s1(1)
      by (cases "decide window threshold (push (Fin x) s) (Fin x)") auto
    then show ?thesis
    proof cases
      case 1 with 3(3) show ?thesis by blast
    next
      case 2 with px show ?thesis by blast
    next
      case 3
      from "3.IH"(2)[OF _ _ _ s1(2) fr] False v 3 s1(1) show ?thesis by simp
    qed
  qed
qed auto

subsection \<open>Discarded samples\<close>

lemma invalid_iff:
  "invalid v \<longleftrightarrow> v = Other \<or> v = Number NInf \<or> (\<exists>x<0. v = Number (Fin x))"
proof (cases v)
  case (Number n)
  then show ?thesis by (cases n) auto
qed simp

lemma bootstrap_loop_append:
  "bootstrap_loop (h1 @ h2) s = bootstrap_loop h2 (bootstrap_loop h1 s)"
  by (induction h1 s rule: bootstrap_loop.induct) auto

lemma bootstrap_loop_skip:
  "invalid v \<Longrightarrow> bootstrap_loop (h1 @ (t, v) # h2) s = bootstrap_loop (h1 @ h2) s"
  by (cases v) (simp_all add: bootstrap_loop_append)

lemma stream_loop_skip:
  "invalid v \<Longrightarrow>
   stream_loop window threshold (l1 @ (t, v) # l2) s = stream_loop window threshold (l1 @ l2) s"
proof (induction window threshold l1 s rule: stream_loop.induct)
  case (1 window threshold s)
  then show ?case by (cases v) auto
next
  case (3 window threshold timestamp v rest s)
  then show ?case by (auto split: sum.splits prod.splits)
qed auto

subsection \<open>The statistics on finite accumulators\<close>



lemma rolling_mean_fin:
  "window \<noteq> 0 \<Longrightarrow> rolling_sum s = Fin S \<Longrightarrow>
   rolling_mean window s = Inr (Fin (S / of_int window))"
  by (simp add: rolling_mean_def)

lemma rolling_variance_fin:
  "window \<noteq> 1 \<Longrightarrow> rolling_sum s = Fin S \<Longrightarrow> rolling_squared_sum s = Fin Q \<Longrightarrow>
   rolling_variance window (Fin m) s =
     Inr (Fin ((of_int window * m\<^sup>2 - 2 * m * S + Q) / (of_int window - 1)))"
  by (simp add: rolling_variance_def nsub_def power2_eq_square)

lemma decide_fin:
  assumes "1 < window" "rolling_sum s = Fin S" "rolling_squared_sum s = Fin Q"
    and "m = S / of_int window"
    and "var = (of_int window * m\<^sup>2 - 2 * m * S + Q) / (of_int window - 1)"
    and "0 < var"
  shows "decide window threshold s (Fin v) = Inr (threshold < \<bar>v - m\<bar> / sqrt var)"
proof -
  have m: "rolling_mean window s = Inr (Fin m)"
    using assms(1,2,4) by (simp add: rolling_mean_fin)
  have v: "rolling_variance window (Fin m) s = Inr (Fin var)"
    using assms(1,2,3,5) by (simp add: rolling_variance_fin)
  have sd: "rolling_std window (Fin m) s = Inr (Fin (sqrt var))"
    using v assms(6) by (simp add: rolling_std_def)
  have "0 < sqrt var" using assms(6) by simp
  then have "is_outlier threshold (Fin v) (Fin m) (Fin (sqrt var)) =
      Inr (threshold < \<bar>v - m\<bar> / sqrt var)"
    by (simp add: is_outlier_def nsub_def)
  with m sd show ?thesis by (simp add: decide_def)
qed

lemma zero_variance_raises:
  assumes "1 < window" and "rolling_sum s = Fin S" and "rolling_squared_sum s = Fin Q"
    and "of_int window * (S / of_int window)\<^sup>2 - 2 * (S / of_int window) * S + Q = 0"
  shows "decide window threshold s (Fin v) = Inl ZeroDivisionError"
proof -
  have m: "rolling_mean window s = Inr (Fin (S / of_int window))"
    using assms(1,2) by (simp add: rolling_mean_fin)
  have "rolling_variance window (Fin (S / of_int window)) s =
      Inr (Fin ((of_int window * (S / of_int window)\<^sup>2 - 2 * (S / of_int window) * S + Q)
                / (of_int window - 1)))"
    using assms(1,2,3) by (simp add: rolling_variance_fin)
  then have "rolling_variance window (Fin (S / of_int window)) s = Inr (Fin 0)"
    unfolding assms(4) by simp
  then have "rolling_std window (Fin (S / of_int window)) s = Inr (Fin 0)"
    by (simp add: rolling_std_def)
  with m show ?thesis by (simp add: decide_def is_outlier_def nsub_def)
qed

lemma identical_values_raise:
  assumes "1 < window" and "0 \<le> c" and "fin_state (replicate (nat (window - 1)) c) s"
  shows "stream_loop window threshold ((timestamp, Number (Fin c)) # rest) s =
           ([], Inl ZeroDivisionError)"
proof -
  let ?n = "nat (window - 1)"
  have w: "(of_int window :: real) = real ?n + 1" using assms(1) by simp
  have S: "rolling_sum (push (Fin c) s) = Fin (of_int window * c)"
    using assms(3) by (simp add: fin_state_def push_def sum_list_replicate w algebra_simps)
  have "(\<Sum>x\<leftarrow>replicate ?n c. x * x) = real ?n * (c * c)"
    by (simp add: sum_list_replicate)
  then have Q: "rolling_squared_sum (push (Fin c) s) = Fin (of_int window * (c * c))"
    using assms(3) by (simp add: fin_state_def push_def w algebra_simps)
  have "of_int window * (of_int window * c / of_int window)\<^sup>2
          - 2 * (of_int window * c / of_int window) * (of_int window * c)
          + of_int window * (c * c) = (0::real)"
    using assms(1) by (simp add: power2_eq_square algebra_simps)
  with assms(1) S Q have "decide window threshold (push (Fin c) s) (Fin c) = Inl ZeroDivisionError"
    by (rule zero_variance_raises)
  with assms(2) show ?thesis by simp
qed

subsection \<open>Decision points of a run\<close>











subsection \<open>The historical lookup of the repository\<close>

text \<open>
  Off the grid of the increment, and called with the increment of the range, the lookup
  returns \<open>window - 1\<close> samples.
\<close>

lemma lookup_off_grid:
  assumes "0 < inc" "1 < window" "now / of_int inc \<notin> \<int>"
  shows "\<exists>h. get_historical_energy_data e (now - of_int ((window - 1) * inc)) now inc = Inr h \<and>
             int (length h) = window - 1"
proof -
  let ?q = "now / of_int inc"
  have inc0: "(of_int inc :: real) \<noteq> 0" using assms(1) by simp
  have e1: "(now - of_int ((window - 1) * inc)) / of_int inc = ?q - of_int (window - 1)"
    using inc0 by (simp add: field_simps)
  have c: "\<lceil>(now - of_int ((window - 1) * inc)) / of_int inc\<rceil> = \<lceil>?q\<rceil> - (window - 1)"
    unfolding e1 by (rule ceiling_diff_of_int)
  have e2: "(now - of_int ((\<lceil>?q\<rceil> - (window - 1)) * inc)) / of_int inc
        = ?q - of_int (\<lceil>?q\<rceil> - (window - 1))"
    using inc0 by (simp add: field_simps)
  have f: "\<lfloor>(now - of_int ((\<lceil>?q\<rceil> - (window - 1)) * inc)) / of_int inc\<rfloor>
        = \<lfloor>?q\<rfloor> - (\<lceil>?q\<rceil> - (window - 1))"
    unfolding e2 by (rule floor_diff_of_int)
  have cf: "\<lceil>?q\<rceil> = \<lfloor>?q\<rfloor> + 1"
  proof -
    have "?q \<noteq> of_int \<lfloor>?q\<rfloor>"
      using assms(3) Ints_of_int by metis
    then show ?thesis by (simp add: ceiling_altdef)
  qed
  show ?thesis
    using assms(1,2) c f cf
    by (simp add: get_historical_energy_data_def Let_def)
qed

lemma bootstrap_intended_case:
  assumes "1 < window" and "now / 86400 \<notin> \<int>" and "\<forall>t. \<exists>x\<ge>0. energy_value t = Fin x"
    and "default_lookup energy_value (now - of_int ((window - 1) * 86400)) now = Inr h"
  shows "int (length (window_values (bootstrap_loop h init_state))) = window - 1"
proof -
  from lookup_off_grid[of 86400 window now energy_value] assms(1,2,4)
  have len: "int (length h) = window - 1"
    by (simp add: default_lookup_def)
  have "\<forall>x\<in>set h. \<not> invalid (snd x)"
  proof
    fix x assume "x \<in> set h"
    with assms(4) obtain t where "snd x = Number (energy_value t)"
      by (auto simp: default_lookup_def get_historical_energy_data_def Let_def)
    moreover from assms(3) obtain y where "0 \<le> y" "energy_value t = Fin y" by blast
    ultimately show "\<not> invalid (snd x)" by simp
  qed
  then have "filter (\<lambda>x. \<not> invalid (snd x)) h = h" by simp
  with len bootstrap_length[of h init_state] show ?thesis
    by (simp add: init_state_def)
qed

section \<open>Zero variance\<close>

text \<open>
  Claim C1 says that a decision point at which all values of the window are equal yields a
  decision with \<open>is_outlier = False\<close> and raises no division error. The code has no such
  case: with \<open>window = 3\<close>, the historical values \<open>5, 5\<close> and the live value \<open>5\<close>, the
  standard deviation is \<open>0.0\<close>, the division of line 121 raises \<open>ZeroDivisionError\<close> and
  nothing is yielded. (By \<open>identical_values_raise\<close> this is so for every window of
  identical values.)
\<close>

theorem C1_zero_variance_raises:
  "process_z_score_outliers (\<lambda>start end'. Inr [(0::int, Number (Fin 5)), (1, Number (Fin 5))])
      [(2, Number (Fin 5))] 3 2.25 86400 259200.5 =
     \<lparr>lookup_calls = [(86400.5, 259200.5)], yielded = [], final = Inl ZeroDivisionError\<rparr>"
  by (simp add: run_defs)

section \<open>Length of the window\<close>

text \<open>
  Claim C2 says that the window holds exactly \<open>window\<close> values after bootstrap and after every
  emitted decision. With \<open>window = 3\<close> and the two historical samples that the docstring asks
  for, it holds two values after bootstrap, and two again after the first decision.
\<close>

theorem C2_counterexample:
  "length (window_values (bootstrap_loop [(0::int, Number (Fin 1)), (1, Number (Fin 3))] init_state)) = 2 \<and>
   stream_loop 3 2.25 [(2, Number (Fin 5))]
      (bootstrap_loop [(0::int, Number (Fin 1)), (1, Number (Fin 3))] init_state) =
     ([(2, Fin 5, False)],
      Inr \<lparr>rolling_sum = Fin 8, rolling_squared_sum = Fin 34,
           window_values = [Fin 3, Fin 5], window_squared_values = [Fin 9, Fin 25]\<rparr>)"
  by (simp add: run_defs)

text \<open>
  Claim C2, amended. After bootstrap the window holds as many values as the lookup returned
  valid samples (\<open>window - 1\<close> when the lookup returns \<open>window - 1\<close> valid samples), and
  whenever the generator waits for the next item, that is after every emitted decision and
  its eviction, it holds that same number of values; the push of the next value makes it one
  more, until the eviction.
\<close>

theorem C2_window_length_after_each_cycle:
  assumes "stream_loop window threshold live (bootstrap_loop hist init_state) = (out, Inr s')"
  shows "length (window_values (bootstrap_loop hist init_state)) =
           length (filter (\<lambda>x. \<not> invalid (snd x)) hist) \<and>
         length (window_values s') = length (filter (\<lambda>x. \<not> invalid (snd x)) hist) \<and>
         length (window_values (push v s')) = Suc (length (filter (\<lambda>x. \<not> invalid (snd x)) hist))"
  using stream_length[OF assms] bootstrap_length[of hist init_state]
  by (simp add: init_state_def push_def)

theorem C2_witness:
  "stream_loop 3 2.25 [(2, Number (Fin 5))]
      (bootstrap_loop [(0::int, Number (Fin 1)), (1, Number (Fin (- 4))), (2, Number (Fin 3))] init_state) =
     ([(2, Fin 5, False)],
      Inr \<lparr>rolling_sum = Fin 8, rolling_squared_sum = Fin 34,
           window_values = [Fin 3, Fin 5], window_squared_values = [Fin 9, Fin 25]\<rparr>) \<and>
   length (window_values (bootstrap_loop [(0::int, Number (Fin 1)), (1, Number (Fin (- 4))), (2, Number (Fin 3))] init_state)) = 2 \<and>
   length (window_values \<lparr>rolling_sum = Fin 8, rolling_squared_sum = Fin 34,
           window_values = [Fin 3, Fin 5], window_squared_values = [Fin 9, Fin 25]\<rparr>) = 2 \<and>
   length (window_values (push (Fin 7) \<lparr>rolling_sum = Fin 8, rolling_squared_sum = Fin 34,
           window_values = [Fin 3, Fin 5], window_squared_values = [Fin 9, Fin 25]\<rparr>)) = 3"
proof -
  have h: "stream_loop 3 2.25 [(2, Number (Fin 5))]
      (bootstrap_loop [(0::int, Number (Fin 1)), (1, Number (Fin (- 4))), (2, Number (Fin 3))] init_state) =
     ([(2, Fin 5, False)],
      Inr \<lparr>rolling_sum = Fin 8, rolling_squared_sum = Fin 34,
           window_values = [Fin 3, Fin 5], window_squared_values = [Fin 9, Fin 25]\<rparr>)"
    by (simp add: run_defs)
  from C2_window_length_after_each_cycle[OF h, of "Fin 7"] h show ?thesis by simp
qed

section \<open>The accumulators\<close>

text \<open>
  Claim C3. In exact arithmetic (all sample values finite), at every point of the bootstrap
  and of the streaming, before and after each push and each eviction, \<open>rolling_sum\<close> is the
  sum of the values held in the window and \<open>rolling_squared_sum\<close> the sum of their squares.
\<close>

theorem C3_accumulators_exact_at_every_point:
  assumes "\<forall>x\<in>set hist. finite_value (snd x)" and "\<forall>x\<in>set live. finite_value (snd x)"
  shows "\<forall>p\<in>set (bootstrap_points hist init_state) \<union>
              set (stream_points window threshold live (bootstrap_loop hist init_state)).
           accumulators_exact p"
proof
  fix p
  assume "p \<in> set (bootstrap_points hist init_state) \<union>
              set (stream_points window threshold live (bootstrap_loop hist init_state))"
  then consider "p \<in> set (bootstrap_points hist init_state)"
    | "p \<in> set (stream_points window threshold live (bootstrap_loop hist init_state))"
    by blast
  then have "\<exists>ys. fin_state ys p"
  proof cases
    case 1
    with bootstrap_points_fin[OF fin_state_init assms(1)] show ?thesis by blast
  next
    case 2
    have "fin_state ([] @ accepted hist) (bootstrap_loop hist init_state)"
      using fin_state_init assms(1) by (rule bootstrap_fin)
    from stream_points_fin[OF this assms(2) 2] show ?thesis .
  qed
  then show "accumulators_exact p" by (auto intro: fin_state_exact)
qed

theorem C3_witness:
  "list_all (\<lambda>x. finite_value (snd x)) [(0::int, Number (Fin 1)), (1, Other), (2, Number (Fin 3))] \<and>
   list_all (\<lambda>x. finite_value (snd x)) [(3::int, Number (Fin 5)), (4, Number (Fin (- 1))), (5, Number (Fin 7))] \<and>
   list_all accumulators_exact
     (bootstrap_points [(0::int, Number (Fin 1)), (1, Other), (2, Number (Fin 3))] init_state @
      stream_points 3 2.25 [(3, Number (Fin 5)), (4, Number (Fin (- 1))), (5, Number (Fin 7))]
        (bootstrap_loop [(0::int, Number (Fin 1)), (1, Other), (2, Number (Fin 3))] init_state)) \<and>
   length (stream_points 3 2.25 [(3, Number (Fin 5)), (4, Number (Fin (- 1))), (5, Number (Fin 7))]
        (bootstrap_loop [(0::int, Number (Fin 1)), (1, Other), (2, Number (Fin 3))] init_state)) = 6"
proof -
  have len: "length (stream_points 3 2.25 [(3, Number (Fin 5)), (4, Number (Fin (- 1))), (5, Number (Fin 7))]
        (bootstrap_loop [(0::int, Number (Fin 1)), (1, Other), (2, Number (Fin 3))] init_state)) = 6"
    by (simp add: run_defs)
  from C3_accumulators_exact_at_every_point
    [of "[(0::int, Number (Fin 1)), (1, Other), (2, Number (Fin 3))]"
        "[(3::int, Number (Fin 5)), (4, Number (Fin (- 1))), (5, Number (Fin 7))]" 3 "2.25"]
    len
  show ?thesis by (simp add: list_all_iff)
qed

section \<open>The decision\<close>

text \<open>
  Whenever the variance expression is positive, the cycle of an accepted live sample computes
  the mean from the sum that includes the new value, the standard deviation as the square
  root of the variance expression, and yields the decision of the formula; the eviction
  follows, on the state that still holds the oldest value.
\<close>

lemma decision_formula:
  assumes "1 < window" and "rolling_sum s = Fin S" and "rolling_squared_sum s = Fin Q"
    and "0 \<le> v"
    and "m = (S + v) / of_int window"
    and "var = (of_int window * m\<^sup>2 - 2 * m * (S + v) + (Q + v\<^sup>2)) / (of_int window - 1)"
    and "0 < var"
  shows "rolling_mean window (push (Fin v) s) = Inr (Fin m) \<and>
         rolling_std window (Fin m) (push (Fin v) s) = Inr (Fin (sqrt var)) \<and>
         (\<exists>s'. evict (push (Fin v) s) = Inr s' \<and>
               stream_loop window threshold ((timestamp, Number (Fin v)) # rest) s =
                 ((timestamp, Fin v, threshold < \<bar>v - m\<bar> / sqrt var) #
                    fst (stream_loop window threshold rest s'),
                  snd (stream_loop window threshold rest s')))"
proof -
  have ps: "rolling_sum (push (Fin v) s) = Fin (S + v)"
    and pq: "rolling_squared_sum (push (Fin v) s) = Fin (Q + v\<^sup>2)"
    using assms(2,3) by (simp_all add: push_def power2_eq_square)
  have mean: "rolling_mean window (push (Fin v) s) = Inr (Fin m)"
    using assms(1,5) ps by (simp add: rolling_mean_fin)
  have "rolling_variance window (Fin m) (push (Fin v) s) = Inr (Fin var)"
    using assms(1,6) ps pq by (simp add: rolling_variance_fin)
  then have sd: "rolling_std window (Fin m) (push (Fin v) s) = Inr (Fin (sqrt var))"
    using assms(7) by (simp add: rolling_std_def)
  have d: "decide window threshold (push (Fin v) s) (Fin v) =
      Inr (threshold < \<bar>v - m\<bar> / sqrt var)"
    using assms(1) ps pq assms(5,6,7) by (rule decide_fin)
  obtain s' where s': "evict (push (Fin v) s) = Inr s'"
    using evict_push_lengths by blast
  have "stream_loop window threshold ((timestamp, Number (Fin v)) # rest) s =
          ((timestamp, Fin v, threshold < \<bar>v - m\<bar> / sqrt var) #
              fst (stream_loop window threshold rest s'),
           snd (stream_loop window threshold rest s'))"
    using assms(4) d s' by (simp split: prod.splits)
  with mean sd s' show ?thesis by blast
qed

lemma decision_formula_example:
  "(1::int) < 3 \<and>
   rolling_sum (bootstrap_loop [(0::int, Number (Fin 1)), (1, Number (Fin 3))] init_state) = Fin 4 \<and>
   rolling_squared_sum (bootstrap_loop [(0::int, Number (Fin 1)), (1, Number (Fin 3))] init_state) = Fin 10 \<and>
   (0::real) \<le> 5 \<and> (0::real) < 4 \<and>
   rolling_mean 3 (push (Fin 5) (bootstrap_loop [(0::int, Number (Fin 1)), (1, Number (Fin 3))] init_state)) = Inr (Fin 3) \<and>
   rolling_std 3 (Fin 3) (push (Fin 5) (bootstrap_loop [(0::int, Number (Fin 1)), (1, Number (Fin 3))] init_state)) = Inr (Fin 2) \<and>
   stream_loop 3 (1 / 2) [(2, Number (Fin 5))]
      (bootstrap_loop [(0::int, Number (Fin 1)), (1, Number (Fin 3))] init_state) =
     ([(2, Fin 5, True)],
      Inr \<lparr>rolling_sum = Fin 8, rolling_squared_sum = Fin 34,
           window_values = [Fin 3, Fin 5], window_squared_values = [Fin 9, Fin 25]\<rparr>)"
proof -
  let ?s = "bootstrap_loop [(0::int, Number (Fin 1)), (1, Number (Fin 3))] init_state"
  have a: "rolling_sum ?s = Fin 4" and b: "rolling_squared_sum ?s = Fin 10"
    by (simp_all add: run_defs)
  have m: "(3::real) = (4 + 5) / of_int 3" by simp
  have var: "(4::real) = (of_int 3 * 3\<^sup>2 - 2 * 3 * (4 + 5) + (10 + 5\<^sup>2)) / (of_int 3 - 1)" by simp
  have e: "evict (push (Fin 5) ?s) =
      Inr \<lparr>rolling_sum = Fin 8, rolling_squared_sum = Fin 34,
           window_values = [Fin 3, Fin 5], window_squared_values = [Fin 9, Fin 25]\<rparr>"
    by (simp add: run_defs)
  from decision_formula[of 3 ?s 4 10 5 3 4 "1 / 2" 2 "[]", OF _ a b _ m var] a b e
  show ?thesis by simp
qed

text \<open>
  Claim C4 says that every accepted live sample gets its decision. The live value \<open>0\<close> after
  the historical value \<open>0\<close>, with \<open>window = 2\<close>, passes the sanity check and gets none: the
  variance expression is zero and the division raises, as for C1.
\<close>

theorem C4_accepted_sample_without_decision:
  "\<not> invalid (Number (Fin 0)) \<and>
   stream_loop 2 2.25 [(1, Number (Fin 0))] (bootstrap_loop [(0::int, Number (Fin 0))] init_state) =
     ([], Inl ZeroDivisionError)"
  by (simp add: run_defs)

section \<open>Discarded samples\<close>

text \<open>
  Claim C5 says that every sample whose value is not a finite non-negative number is
  discarded. The sanity check compares with zero only: \<open>+inf\<close> in the historical data is
  appended to the window, and \<open>NaN\<close> on the live stream is admitted and yields a decision.
\<close>

theorem C5_counterexample:
  "window_values (bootstrap_loop [(0::int, Number PInf)] init_state) = [PInf] \<and>
   fst (stream_loop 3 2.25 [(2, Number NaN)]
          (bootstrap_loop [(0::int, Number (Fin 1)), (1, Number (Fin 3))] init_state)) =
     [(2, NaN, False)]"
  by (simp add: run_defs)

text \<open>
  Claim C5, amended. Every sample, historical or live, whose value is not an \<open>int\<close> or
  \<open>float\<close>, or is less than zero (a negative number or \<open>-inf\<close>), is discarded: the run with
  the sample anywhere in the historical or live sequence is the run without it, in state and
  in output.
\<close>

theorem C5_invalid_samples_are_skipped:
  assumes "v = Other \<or> v = Number NInf \<or> (\<exists>x<0. v = Number (Fin x))"
  shows "bootstrap_loop (h1 @ (t, v) # h2) s = bootstrap_loop (h1 @ h2) s \<and>
         stream_loop window threshold (l1 @ (timestamp, v) # l2) s =
           stream_loop window threshold (l1 @ l2) s"
proof -
  from assms have "invalid v" by (simp add: invalid_iff)
  then show ?thesis by (simp add: bootstrap_loop_skip stream_loop_skip)
qed

theorem C5_witness:
  "bootstrap_loop ([(0::int, Number (Fin 1))] @ (1, Number (Fin (- 4))) # [(2, Number (Fin 3))]) init_state =
     bootstrap_loop ([(0::int, Number (Fin 1))] @ [(2, Number (Fin 3))]) init_state \<and>
   stream_loop 3 2.25 ([(3, Number (Fin 5))] @ (4, Number (Fin (- 4))) # [(5, Number (Fin 7))])
       (bootstrap_loop [(0::int, Number (Fin 1)), (2, Number (Fin 3))] init_state) =
     stream_loop 3 2.25 ([(3, Number (Fin 5))] @ [(5, Number (Fin 7))])
       (bootstrap_loop [(0::int, Number (Fin 1)), (2, Number (Fin 3))] init_state) \<and>
   fst (stream_loop 3 2.25 ([(3, Number (Fin 5))] @ (4, Number (Fin (- 4))) # [(5, Number (Fin 7))])
       (bootstrap_loop [(0::int, Number (Fin 1)), (2, Number (Fin 3))] init_state)) =
     [(3, Fin 5, False), (5, Fin 7, False)]"
proof -
  have c: "Number (Fin (- 4)) = Other \<or> Number (Fin (- 4)) = Number NInf \<or>
           (\<exists>x<0. Number (Fin (- 4)) = Number (Fin x))"
    by simp
  have o: "fst (stream_loop 3 2.25 ([(3, Number (Fin 5))] @ [(5, Number (Fin 7))])
       (bootstrap_loop [(0::int, Number (Fin 1)), (2, Number (Fin 3))] init_state)) =
     [(3, Fin 5, False), (5, Fin 7, False)]"
    by (simp add: run_defs)
  from C5_invalid_samples_are_skipped[OF c, of "[(0::int, Number (Fin 1))]" 1 "[(2, Number (Fin 3))]"
      init_state 3 "2.25" "[]" 4 "[]"]
    C5_invalid_samples_are_skipped[OF c, of "[]" "1::int" "[]"
      "bootstrap_loop [(0::int, Number (Fin 1)), (2, Number (Fin 3))] init_state"
      3 "2.25" "[(3, Number (Fin 5))]" 4 "[(5, Number (Fin 7))]"] o
  show ?thesis
    by (simp only:)
qed

section \<open>Bootstrap\<close>

text \<open>
  Claim C6 says that the lookup is called once with the range
  \<open>[now - (window - 1) * timestamp_increment, now]\<close> and that the initial window then holds
  \<open>window - 1\<close> entries. The call is as claimed; the number of entries is not. The lookup is
  called without the increment, so it steps by its default of one day: for \<open>window = 3\<close> and
  \<open>timestamp_increment = 3600\<close> it returns one sample, not two. And when \<open>now\<close> lies on the
  grid of the increment, both ends of the range are returned: for \<open>window = 2\<close>, two samples.
\<close>

theorem C6_lookup_returns_other_than_window_minus_1:
  "process_z_score_outliers (default_lookup (\<lambda>t. Fin 25000)) [] 3 2.25 3600 86500.5 =
     \<lparr>lookup_calls = [(79300.5, 86500.5)], yielded = [],
      final = Inr \<lparr>rolling_sum = Fin 25000, rolling_squared_sum = Fin 625000000,
                  window_values = [Fin 25000], window_squared_values = [Fin 625000000]\<rparr>\<rparr> \<and>
   process_z_score_outliers (default_lookup (\<lambda>t. Fin 25000)) [] 2 2.25 86400 864000 =
     \<lparr>lookup_calls = [(777600, 864000)], yielded = [],
      final = Inr \<lparr>rolling_sum = Fin 50000, rolling_squared_sum = Fin 1250000000,
                  window_values = [Fin 25000, Fin 25000],
                  window_squared_values = [Fin 625000000, Fin 625000000]\<rparr>\<rparr>"
  by (simp add: run_defs default_lookup_def get_historical_energy_data_def upto.simps)

section \<open>Configuration error\<close>

text \<open>
  Claim C7. For every \<open>window \<le> 1\<close> the generator fails at once with the \<open>ValueError\<close> of
  the window check: the historical lookup has not been called and nothing has been yielded.
\<close>

theorem C7_window_le_1_fails_first:
  "window \<le> 1 \<Longrightarrow>
   process_z_score_outliers get_historical_data live window threshold timestamp_increment now =
     \<lparr>lookup_calls = [], yielded = [],
      final = Inl (ValueError ''Rolling window must be greater than 1.'')\<rparr>"
  by (simp add: process_z_score_outliers_def)

theorem C7_witness:
  "(1::int) \<le> 1 \<and>
   process_z_score_outliers (\<lambda>a b. Inr [(0::int, Number (Fin 5))]) [(1, Number (Fin 5))] 1 2.25 86400 1000 =
     \<lparr>lookup_calls = [], yielded = [],
      final = Inl (ValueError ''Rolling window must be greater than 1.'')\<rparr>"
  using C7_window_le_1_fails_first
    [of 1 "\<lambda>a b. Inr [(0::int, Number (Fin 5))]" "[(1, Number (Fin 5))]" "2.25" 86400 1000]
  by simp

section \<open>The variance expression\<close>




section \<open>Eviction\<close>

text \<open>
  Claim C9. The eviction never finds an empty queue: it follows a push, so neither a cycle nor
  a whole run ends in \<open>IndexError\<close>, whatever the state after bootstrap, the empty window
  included.
\<close>

theorem C9_eviction_never_on_empty_window:
  "evict (push v s) \<noteq> Inl IndexError \<and>
   snd (stream_loop window threshold live s) \<noteq> Inl IndexError \<and>
   snd (stream_loop window threshold live (bootstrap_loop hist init_state)) \<noteq> Inl IndexError"
proof -
  have ev: "evict (push v s) \<noteq> Inl IndexError" for v s
    using evict_push_lengths[of v s] by auto
  have loop: "snd (stream_loop window threshold live s) \<noteq> Inl IndexError" for s
  proof (induction window threshold live s rule: stream_loop.induct)
    case (3 window threshold timestamp v rest s)
    obtain s' where s': "evict (push v s) = Inr s'"
      using evict_push_lengths by blast
    show ?case
    proof (cases "invalid (Number v)")
      case True
      with 3 show ?thesis by simp
    next
      case False
      show ?thesis
      proof (cases "decide window threshold (push v s) v")
        case (Inl e)
        with False decide_not_IndexError[of window threshold "push v s" v] show ?thesis by auto
      next
        case (Inr b)
        with False s' 3(2)[OF False Inr s'] show ?thesis
          by (auto split: prod.splits)
      qed
    qed
  qed simp_all
  from ev loop show ?thesis by blast
qed

section \<open>The divisors\<close>



end
